theory Spec2Isabelle
  imports Main
begin

section \<open>The National Weather Service integration: data model\<close>

text \<open>
  The module \<^verbatim>\<open>homeassistant/components/nws/__init__.py\<close> polls three data
  products of a weather provider and signals its subscribers. The provider client
  (pynws), the logger and the dispatcher are external: a call of the coordinator is
  modelled as a function of what the three network calls do in that cycle, returning
  what the call raised, the coordinator after the call and the ordered list of the
  effects it had on its collaborators.
\<close>

subsection \<open>Exceptions and the outcome of an awaited call\<close>

text \<open>
  An exception is known by the class the \<^verbatim>\<open>except\<close> clause tests and its text:
  \<open>ClientError\<close> is \<^verbatim>\<open>aiohttp.ClientError\<close> or a subclass of it, \<open>TimeoutError\<close> is
  \<^verbatim>\<open>asyncio.TimeoutError\<close>, \<open>OtherError\<close> is any exception of neither class.
\<close>

datatype exn = ClientError string | TimeoutError | OtherError string

text \<open>\<^verbatim>\<open>except (aiohttp.ClientError, asyncio.TimeoutError) as err\<close>\<close>

fun caught :: "exn \<Rightarrow> bool" where
  "caught (ClientError _) = True"
| "caught TimeoutError = True"
| "caught (OtherError _) = False"

datatype outcome = Returned | Raised exn

fun fatal :: "outcome \<Rightarrow> bool" where
  "fatal Returned = False"
| "fatal (Raised e) = (\<not> caught e)"

text \<open>The three methods of the client that \<^verbatim>\<open>async_update\<close> awaits.\<close>

datatype item = update_observation | update_forecast | update_forecast_hourly

text \<open>
  What the network does in one cycle: for each method, whether awaiting it returns or
  raises. A cycle awaits each method at most once.
\<close>

type_synonym io = "item \<Rightarrow> outcome"

subsection \<open>Effects\<close>

text \<open>
  A log call keeps its format string and its arguments apart, as \<^verbatim>\<open>logging\<close> does.
  The station of the client is a string, or \<^verbatim>\<open>None\<close> while it is unset.
\<close>

datatype arg = Str string | Station "string option" | Err exn

datatype event =
    LogDebug string "arg list"
  | LogWarning string "arg list"
  | Await item outcome
  | DispatcherSend string

subsection \<open>The client handle and the coordinator\<close>

text \<open>
  \<^verbatim>\<open>SimpleNWS(latitude, longitude, ha_api_key, websession)\<close>: the handle keeps the
  four arguments it was built with and its \<^verbatim>\<open>station\<close> attribute.
\<close>

record ('c, 'ws) SimpleNWS =
  nws_latitude :: 'c
  nws_longitude :: 'c
  nws_api_key :: string
  nws_session :: 'ws
  nws_station :: "string option"

definition SimpleNWS_init :: "'c \<Rightarrow> 'c \<Rightarrow> string \<Rightarrow> 'ws \<Rightarrow> ('c, 'ws) SimpleNWS" where
  "SimpleNWS_init lat lon api_key session =
     \<lparr>nws_latitude = lat, nws_longitude = lon, nws_api_key = api_key,
      nws_session = session, nws_station = None\<rparr>"

record ('h, 'c, 'ws) NwsData =
  hass :: 'h
  latitude :: 'c
  longitude :: 'c
  nws :: "('c, 'ws) SimpleNWS"
  update_observation_success :: bool
  update_forecast_success :: bool
  update_forecast_hourly_success :: bool

text \<open>\<^verbatim>\<open>NwsData.__init__(self, hass, latitude, longitude, api_key, websession)\<close>\<close>

definition NwsData_init :: "'h \<Rightarrow> 'c \<Rightarrow> 'c \<Rightarrow> string \<Rightarrow> 'ws \<Rightarrow> ('h, 'c, 'ws) NwsData" where
  "NwsData_init h lat lon api_key websession =
     (let ha_api_key = api_key @ '' homeassistant''
      in \<lparr>hass = h, latitude = lat, longitude = lon,
          nws = SimpleNWS_init lat lon ha_api_key websession,
          update_observation_success = True,
          update_forecast_success = True,
          update_forecast_hourly_success = True\<rparr>)"

text \<open>The property \<^verbatim>\<open>station\<close>: \<^verbatim>\<open>return self.nws.station\<close>\<close>

definition station :: "('h, 'c, 'ws) NwsData \<Rightarrow> string option" where
  "station self = nws_station (nws self)"

subsection \<open>Identity strings\<close>

text \<open>
  \<^verbatim>\<open>DOMAIN\<close> comes from \<^verbatim>\<open>.const\<close>, which is not part of the sources at hand, and
  the coordinates are formatted by Python's \<^verbatim>\<open>format\<close>: both are parameters, \<open>DOMAIN\<close>
  and \<open>fmt\<close>.
\<close>

definition base_unique_id :: "('c \<Rightarrow> string) \<Rightarrow> 'c \<Rightarrow> 'c \<Rightarrow> string" where
  "base_unique_id fmt lat lon = fmt lat @ ''_'' @ fmt lon"

definition signal_unique_id :: "string \<Rightarrow> ('c \<Rightarrow> string) \<Rightarrow> 'c \<Rightarrow> 'c \<Rightarrow> string" where
  "signal_unique_id DOMAIN fmt lat lon = DOMAIN @ ''_'' @ base_unique_id fmt lat lon"

section \<open>The update cycle\<close>

text \<open>
  \<^verbatim>\<open>_async_update_item(update_call, update_type, station_name, previous_success)\<close>.
  The call is given by the method and by what awaiting it does. The result is \<open>Inr\<close>
  the value of \<^verbatim>\<open>success\<close>, or \<open>Inl\<close> the exception that no clause caught.
\<close>

definition async_update_item ::
  "item \<times> outcome \<Rightarrow> string \<Rightarrow> string option \<Rightarrow> bool \<Rightarrow> (exn + bool) \<times> event list" where
  "async_update_item update_call update_type station_name previous_success =
     (let entered = [LogDebug ''Updating %s for station %s''
                       [Str update_type, Station station_name],
                     Await (fst update_call) (snd update_call)]
      in (case snd update_call of
            Returned \<Rightarrow>
              (Inr True,
               entered @
               (if \<not> previous_success
                then [LogWarning ''Success updating %s for station %s''
                        [Str update_type, Station station_name]]
                else []))
          | Raised err \<Rightarrow>
              (if caught err
               then (Inr False,
                     entered @
                     (if previous_success
                      then [LogWarning ''Error updating %s for station %s: %s''
                              [Str update_type, Station station_name, Err err]]
                      else []))
               else (Inl err, entered))))"

text \<open>
  \<^verbatim>\<open>async_update(self, now=None)\<close>. Each assignment to a flag happens when its call
  has returned, before the next call starts; an exception leaves the coordinator as
  the assignments before it made it.
\<close>

definition async_update ::
  "string \<Rightarrow> ('c \<Rightarrow> string) \<Rightarrow> io \<Rightarrow> ('h, 'c, 'ws) NwsData
     \<Rightarrow> exn option \<times> ('h, 'c, 'ws) NwsData \<times> event list" where
  "async_update DOMAIN fmt net self =
     (case async_update_item (update_observation, net update_observation)
             ''observation'' (station self) (update_observation_success self) of
        (Inl e, t1) \<Rightarrow> (Some e, self, t1)
      | (Inr b1, t1) \<Rightarrow>
          (let self1 = self\<lparr>update_observation_success := b1\<rparr> in
           (case async_update_item (update_forecast, net update_forecast)
                   ''forecast'' (station self1) (update_forecast_success self1) of
              (Inl e, t2) \<Rightarrow> (Some e, self1, t1 @ t2)
            | (Inr b2, t2) \<Rightarrow>
                (let self2 = self1\<lparr>update_forecast_success := b2\<rparr> in
                 (case async_update_item (update_forecast_hourly, net update_forecast_hourly)
                         ''forecast_hourly'' (station self2)
                         (update_forecast_hourly_success self2) of
                    (Inl e, t3) \<Rightarrow> (Some e, self2, t1 @ t2 @ t3)
                  | (Inr b3, t3) \<Rightarrow>
                      (let self3 = self2\<lparr>update_forecast_hourly_success := b3\<rparr> in
                       (None, self3,
                        t1 @ t2 @ t3 @
                        [DispatcherSend
                           (signal_unique_id DOMAIN fmt
                              (latitude self3) (longitude self3))])))))))"

text \<open>
  Successive calls of \<^verbatim>\<open>async_update\<close> on one coordinator, one per element of the
  list: each call starts from the coordinator the call before left, whether that call
  returned or raised.
\<close>

fun async_updates ::
  "string \<Rightarrow> ('c \<Rightarrow> string) \<Rightarrow> io list \<Rightarrow> ('h, 'c, 'ws) NwsData
     \<Rightarrow> ('h, 'c, 'ws) NwsData \<times> event list" where
  "async_updates DOMAIN fmt [] self = (self, [])"
| "async_updates DOMAIN fmt (net # nets) self =
     (case async_update DOMAIN fmt net self of
        (r, self', t) \<Rightarrow>
          (case async_updates DOMAIN fmt nets self' of
             (self'', t') \<Rightarrow> (self'', t @ t')))"

section \<open>Reading a coordinator and a trace\<close>

text \<open>The flag of a method, the name \<^verbatim>\<open>async_update\<close> logs it under, and its place in the cycle.\<close>

fun flag :: "item \<Rightarrow> ('h, 'c, 'ws) NwsData \<Rightarrow> bool" where
  "flag update_observation self = update_observation_success self"
| "flag update_forecast self = update_forecast_success self"
| "flag update_forecast_hourly self = update_forecast_hourly_success self"

fun update_type :: "item \<Rightarrow> string" where
  "update_type update_observation = ''observation''"
| "update_type update_forecast = ''forecast''"
| "update_type update_forecast_hourly = ''forecast_hourly''"

fun earlier :: "item \<Rightarrow> item list" where
  "earlier update_observation = []"
| "earlier update_forecast = [update_observation]"
| "earlier update_forecast_hourly = [update_observation, update_forecast]"

fun later :: "item \<Rightarrow> item list" where
  "later update_observation = [update_forecast, update_forecast_hourly]"
| "later update_forecast = [update_forecast_hourly]"
| "later update_forecast_hourly = []"

text \<open>The methods a trace awaited, in order, and the signals it sent.\<close>

fun attempted :: "event list \<Rightarrow> item list" where
  "attempted [] = []"
| "attempted (Await m _ # t) = m # attempted t"
| "attempted (_ # t) = attempted t"

fun is_send :: "event \<Rightarrow> bool" where
  "is_send (DispatcherSend _) = True"
| "is_send _ = False"

fun is_log :: "event \<Rightarrow> bool" where
  "is_log (LogDebug _ _) = True"
| "is_log (LogWarning _ _) = True"
| "is_log _ = False"

fun is_warning :: "event \<Rightarrow> bool" where
  "is_warning (LogWarning _ _) = True"
| "is_warning _ = False"

text \<open>The two warnings of \<^verbatim>\<open>_async_update_item\<close>, for a method and a station.\<close>

definition recovery_log :: "item \<Rightarrow> string option \<Rightarrow> event" where
  "recovery_log m st =
     LogWarning ''Success updating %s for station %s'' [Str (update_type m), Station st]"

definition error_log :: "item \<Rightarrow> string option \<Rightarrow> exn \<Rightarrow> event" where
  "error_log m st err =
     LogWarning ''Error updating %s for station %s: %s''
       [Str (update_type m), Station st, Err err]"

definition debug_log :: "item \<Rightarrow> string option \<Rightarrow> event" where
  "debug_log m st =
     LogDebug ''Updating %s for station %s'' [Str (update_type m), Station st]"

fun is_recovery :: "event \<Rightarrow> bool" where
  "is_recovery (LogWarning msg _) = (msg = ''Success updating %s for station %s'')"
| "is_recovery _ = False"

text \<open>A log call names its method in its first argument.\<close>

fun logged_for :: "item \<Rightarrow> event \<Rightarrow> bool" where
  "logged_for m (LogDebug _ (Str ty # _)) = (ty = update_type m)"
| "logged_for m (LogWarning _ (Str ty # _)) = (ty = update_type m)"
| "logged_for m _ = False"

fun awaits :: "item \<Rightarrow> event \<Rightarrow> bool" where
  "awaits m (Await m' _) = (m' = m)"
| "awaits m _ = False"

text \<open>What a trace shows of one method: its awaited calls and the warnings about it.\<close>

definition concerns :: "item \<Rightarrow> event \<Rightarrow> bool" where
  "concerns m ev = (awaits m ev \<or> (is_warning ev \<and> logged_for m ev))"

text \<open>
  The trace of one method alone, from the value of its flag and the outcomes of its
  calls one after the other: the reference the traces of \<open>async_updates\<close> are
  compared with.
\<close>

fun item_trace :: "item \<Rightarrow> string option \<Rightarrow> bool \<Rightarrow> outcome list \<Rightarrow> event list" where
  "item_trace m st prev [] = []"
| "item_trace m st prev (Returned # os) =
     Await m Returned # (if prev then [] else [recovery_log m st]) @ item_trace m st True os"
| "item_trace m st prev (Raised e # os) =
     Await m (Raised e) #
     (if caught e
      then (if prev then [error_log m st e] else []) @ item_trace m st False os
      else item_trace m st prev os)"

fun item_flag :: "bool \<Rightarrow> outcome list \<Rightarrow> bool" where
  "item_flag prev [] = prev"
| "item_flag prev (Returned # os) = item_flag True os"
| "item_flag prev (Raised e # os) = item_flag (if caught e then False else prev) os"

section \<open>The configuration schema\<close>

text \<open>
  Modelled from the spec: the keys of \<^verbatim>\<open>homeassistant.const\<close> and of \<^verbatim>\<open>.const\<close>, which
  are not part of the sources at hand, under the names the inbound config schema gives
  them.
\<close>

definition CONF_API_KEY :: string where
  "CONF_API_KEY = ''api_key''"

definition CONF_LATITUDE :: string where
  "CONF_LATITUDE = ''latitude''"

definition CONF_LONGITUDE :: string where
  "CONF_LONGITUDE = ''longitude''"

definition CONF_STATION :: string where
  "CONF_STATION = ''station''"

text \<open>
  The markers \<^verbatim>\<open>_INDIVIDUAL_SCHEMA\<close> uses: \<^verbatim>\<open>vol.Required(key)\<close>, \<^verbatim>\<open>vol.Optional(key)\<close>
  and \<^verbatim>\<open>vol.Inclusive(key, group_of_inclusion, msg)\<close>. A validator returns the value
  it accepts or the message of the error it raises.
\<close>

datatype marker = Required string | Optional string | Inclusive string string string

type_synonym 'v validator = "'v \<Rightarrow> string + 'v"

type_synonym 'v schema = "(marker \<times> 'v validator) list"

text \<open>
  The validators of \<^verbatim>\<open>homeassistant.helpers.config_validation\<close> the schema names are
  parameters: they are not part of the sources at hand.
\<close>

record 'v config_validation =
  cv_string :: "'v validator"
  cv_latitude :: "'v validator"
  cv_longitude :: "'v validator"

definition INDIVIDUAL_SCHEMA :: "'v config_validation \<Rightarrow> 'v schema" where
  "INDIVIDUAL_SCHEMA cv =
     [(Required CONF_API_KEY, cv_string cv),
      (Inclusive CONF_LATITUDE ''coordinates''
         ''Latitude and longitude must exist together'', cv_latitude cv),
      (Inclusive CONF_LONGITUDE ''coordinates''
         ''Latitude and longitude must exist together'', cv_longitude cv),
      (Optional CONF_STATION, cv_string cv)]"

datatype invalid =
    InclusiveInvalid string string
  | RequiredFieldInvalid string
  | ExtraKeysInvalid string
  | ValueInvalid string string

fun schema_key :: "marker \<Rightarrow> string" where
  "schema_key (Required k) = k"
| "schema_key (Optional k) = k"
| "schema_key (Inclusive k _ _) = k"

fun group_of_inclusion :: "marker \<Rightarrow> string option" where
  "group_of_inclusion (Inclusive _ g _) = Some g"
| "group_of_inclusion _ = None"

fun group_msg :: "string \<Rightarrow> marker list \<Rightarrow> string" where
  "group_msg label [] =
     ''some but not all values in the same group of inclusion '' @ [CHR 0x27] @ label @ [CHR 0x27]"
| "group_msg label (Inclusive _ _ msg # ns) = (if msg \<noteq> [] then msg else group_msg label ns)"
| "group_msg label (_ # ns) = group_msg label ns"

text \<open>
  Modelled from the spec: the validation of a dictionary against a schema is the work
  of the schema library (voluptuous), which is not part of the sources at hand. The
  keys of one group of inclusion are in the dictionary all together or not at all
  (``fails validation if latitude is present without longitude or vice versa''); the
  first group that breaks this is the error, with the message the schema gives.
\<close>

fun inclusive_errors :: "string list \<Rightarrow> marker list \<Rightarrow> string list \<Rightarrow> invalid list" where
  "inclusive_errors [] nodes keys = []"
| "inclusive_errors (label # labels) nodes keys =
     (let group = filter (\<lambda>n. group_of_inclusion n = Some label) nodes;
          included = map (\<lambda>n. schema_key n \<in> set keys) group
      in (if list_ex (\<lambda>b. b) included \<and> \<not> list_all (\<lambda>b. b) included
          then [InclusiveInvalid (group_msg label group) label]
          else inclusive_errors labels nodes keys))"

text \<open>
  Modelled from the spec: the rest of the library's validation of a dictionary. A key
  the schema does not name is an error (the schema allows no extra keys), the value of
  a key the schema names goes through its validator, and a required key (``required
  API key'') that the dictionary lacks is an error.
\<close>

fun validate_items :: "'v schema \<Rightarrow> (string \<times> 'v) list \<Rightarrow> invalid list \<times> (string \<times> 'v) list" where
  "validate_items schema [] = ([], [])"
| "validate_items schema ((key, val) # kvs) =
     (case validate_items schema kvs of
        (errors, out) \<Rightarrow>
          (case find (\<lambda>(n, _). schema_key n = key) schema of
             None \<Rightarrow> (ExtraKeysInvalid key # errors, out)
           | Some (_, validator) \<Rightarrow>
               (case validator val of
                  Inl msg \<Rightarrow> (ValueInvalid key msg # errors, out)
                | Inr v \<Rightarrow> (errors, (key, v) # out))))"

fun required_errors :: "marker list \<Rightarrow> string list \<Rightarrow> invalid list" where
  "required_errors [] keys = []"
| "required_errors (Required k # ns) keys =
     (if k \<in> set keys then [] else [RequiredFieldInvalid k]) @ required_errors ns keys"
| "required_errors (_ # ns) keys = required_errors ns keys"

text \<open>
  Modelled from the spec: calling a schema on a dictionary, which the library does
  and the sources at hand do not hold. The groups of inclusion are checked first; then
  the items and the required keys. The result is \<open>Inl\<close> the errors or \<open>Inr\<close> the
  validated dictionary.
\<close>

definition validate_dict :: "'v schema \<Rightarrow> (string \<times> 'v) list \<Rightarrow> invalid list + (string \<times> 'v) list" where
  "validate_dict schema data =
     (let nodes = map fst schema; keys = map fst data
      in (case inclusive_errors (remdups (List.map_filter group_of_inclusion nodes)) nodes keys of
            e # es \<Rightarrow> Inl (e # es)
          | [] \<Rightarrow>
              (case validate_items schema data of
                 (errors, out) \<Rightarrow>
                   (if errors @ required_errors nodes keys = [] then Inr out
                    else Inl (errors @ required_errors nodes keys)))))"

definition accept_all :: "string config_validation" where
  "accept_all = \<lparr>cv_string = Inr, cv_latitude = Inr, cv_longitude = Inr\<rparr>"

section \<open>Example inputs\<close>

text \<open>
  A coordinator as \<^verbatim>\<open>async_setup_entry\<close> builds it, with the coordinates given by the
  text Python prints for them, and the network of four cycles.
\<close>

definition fresh :: "(unit, string, unit) NwsData" where
  "fresh = NwsData_init () ''39.0'' ''-77.0'' ''key'' ()"

definition all_returned :: io where
  "all_returned m = Returned"

definition all_timeout :: io where
  "all_timeout m = Raised TimeoutError"

fun observation_down :: io where
  "observation_down update_observation = Raised (ClientError ''unreachable'')"
| "observation_down update_forecast = Returned"
| "observation_down update_forecast_hourly = Returned"

fun forecast_crashes :: io where
  "forecast_crashes update_observation = Raised TimeoutError"
| "forecast_crashes update_forecast = Raised (OtherError ''boom'')"
| "forecast_crashes update_forecast_hourly = Returned"

section \<open>Construction\<close>

text \<open>
  C10: the client is built with the configured key followed by \<open>'' homeassistant''\<close>,
  which is never the configured key itself.
\<close>

theorem client_api_key_suffixed:
  "nws_api_key (nws (NwsData_init h lat lon k ws)) = k @ '' homeassistant''
   \<and> nws_api_key (nws (NwsData_init h lat lon k ws)) \<noteq> k"
  by (simp add: NwsData_init_def SimpleNWS_init_def)

lemma flag_fresh: "flag m (NwsData_init h lat lon k ws)"
  by (cases m) (simp_all add: NwsData_init_def)

lemma station_fresh: "station (NwsData_init h lat lon k ws) = None"
  by (simp add: station_def NwsData_init_def SimpleNWS_init_def)

lemma fresh_simps:
  "update_observation_success fresh" "update_forecast_success fresh"
  "update_forecast_hourly_success fresh" "station fresh = None"
  "nws_station (nws fresh) = None"
  "latitude fresh = ''39.0''" "longitude fresh = ''-77.0''"
  by (simp_all add: fresh_def NwsData_init_def SimpleNWS_init_def station_def)

section \<open>One call of a method\<close>

text \<open>The three log calls of \<^verbatim>\<open>_async_update_item\<close> under their names.\<close>

lemma async_update_item_eq:
  "async_update_item (m, oc) (update_type m) st p =
     (case oc of
        Returned \<Rightarrow>
          (Inr True, debug_log m st # Await m Returned # (if p then [] else [recovery_log m st]))
      | Raised e \<Rightarrow>
          (if caught e
           then (Inr False,
                 debug_log m st # Await m (Raised e) # (if p then [error_log m st e] else []))
           else (Inl e, [debug_log m st, Await m (Raised e)])))"
  by (simp add: async_update_item_def Let_def debug_log_def recovery_log_def error_log_def
        split: outcome.splits)

lemmas async_update_item_folded =
  async_update_item_eq [of update_observation, unfolded update_type.simps]
  async_update_item_eq [of update_forecast, unfolded update_type.simps]
  async_update_item_eq [of update_forecast_hourly, unfolded update_type.simps]

lemmas cycle_defs = async_update_def async_update_item_folded Let_def
  signal_unique_id_def base_unique_id_def

lemma update_type_inj: "(update_type m' = update_type m) = (m' = m)"
  by (cases m; cases m') simp_all

lemma concerns_simps:
  "\<not> concerns m (debug_log m' st)"
  "concerns m (Await m' oc) = (m' = m)"
  "concerns m (recovery_log m' st) = (m' = m)"
  "concerns m (error_log m' st e) = (m' = m)"
  "\<not> concerns m (DispatcherSend sig)"
  by (simp_all add: concerns_def debug_log_def recovery_log_def error_log_def update_type_inj)

lemma logged_for_simps:
  "logged_for m (debug_log m' st) = (m' = m)"
  "logged_for m (recovery_log m' st) = (m' = m)"
  "logged_for m (error_log m' st e) = (m' = m)"
  by (simp_all add: debug_log_def recovery_log_def error_log_def update_type_inj)

lemma log_kind_simps:
  "\<not> is_send (debug_log m st)" "\<not> is_send (recovery_log m st)" "\<not> is_send (error_log m st e)"
  "is_log (debug_log m st)" "is_log (recovery_log m st)" "is_log (error_log m st e)"
  "\<not> is_warning (debug_log m st)" "is_warning (recovery_log m st)"
  "is_warning (error_log m st e)"
  "\<not> is_recovery (debug_log m st)" "is_recovery (recovery_log m st)"
  "\<not> is_recovery (error_log m st e)"
  by (simp_all add: debug_log_def recovery_log_def error_log_def)

lemma attempted_simps:
  "attempted (debug_log m st # t) = attempted t"
  "attempted (recovery_log m st # t) = attempted t"
  "attempted (error_log m st e # t) = attempted t"
  by (simp_all add: debug_log_def recovery_log_def error_log_def)

section \<open>One update cycle\<close>

text \<open>
  C1: when each of the three calls returns or raises an exception the \<^verbatim>\<open>except\<close> clause
  catches, \<^verbatim>\<open>async_update\<close> returns and its trace holds one dispatcher signal, whose
  key is \<^verbatim>\<open>DOMAIN\<close>, the latitude and the longitude joined by underscores.
\<close>

theorem one_notification_per_update:
  assumes "\<forall>m. \<not> fatal (net m)"
  shows "fst (async_update DOMAIN fmt net self) = None
       \<and> filter is_send (snd (snd (async_update DOMAIN fmt net self)))
           = [DispatcherSend (DOMAIN @ ''_'' @ fmt (latitude self) @ ''_'' @ fmt (longitude self))]"
proof -
  from assms have "\<not> fatal (net update_observation)" "\<not> fatal (net update_forecast)"
    "\<not> fatal (net update_forecast_hourly)"
    by simp_all
  then show ?thesis
    by (cases "net update_observation"; cases "net update_forecast";
        cases "net update_forecast_hourly")
       (simp_all add: cycle_defs log_kind_simps)
qed

theorem one_notification_per_update_witness:
  "fst (async_update ''nws'' id all_timeout fresh) = None
   \<and> filter is_send (snd (snd (async_update ''nws'' id all_timeout fresh)))
       = [DispatcherSend ''nws_39.0_-77.0'']"
proof -
  have h: "\<forall>m. \<not> fatal (all_timeout m)"
    by (simp add: all_timeout_def)
  show ?thesis
    using one_notification_per_update [OF h, of "''nws''" id fresh]
    by (simp add: fresh_simps)
qed

text \<open>
  C3: when the call of a method raises an exception the \<^verbatim>\<open>except\<close> clause does not catch
  (the methods before it in the cycle having raised none), \<^verbatim>\<open>async_update\<close> raises that
  exception and has awaited the methods up to that one and no other; and an exception
  that \<^verbatim>\<open>async_update\<close> raises is never one the clause catches.
\<close>

theorem unrecognized_exception_propagates:
  "(net m = Raised e \<and> \<not> caught e \<and> (\<forall>m'\<in>set (earlier m). \<not> fatal (net m'))
      \<longrightarrow> fst (async_update DOMAIN fmt net self) = Some e
        \<and> attempted (snd (snd (async_update DOMAIN fmt net self))) = earlier m @ [m])
   \<and> (\<forall>e'. fst (async_update DOMAIN fmt net self) = Some e' \<longrightarrow> \<not> caught e')"
  by (cases m; cases "net update_observation"; cases "net update_forecast";
      cases "net update_forecast_hourly")
     (auto simp add: cycle_defs attempted_simps)

theorem unrecognized_exception_propagates_witness:
  "fst (async_update ''nws'' id forecast_crashes fresh) = Some (OtherError ''boom'')
   \<and> attempted (snd (snd (async_update ''nws'' id forecast_crashes fresh)))
       = [update_observation, update_forecast]"
  using unrecognized_exception_propagates
    [of forecast_crashes update_forecast "OtherError ''boom''" "''nws''" id fresh]
  by simp

text \<open>
  C5: when \<^verbatim>\<open>async_update\<close> returns, the flag of each method says whether the call of
  that method returned in this cycle: the flag is a function of the outcome of its own
  call, whatever the two other calls did and whatever the flags were before.
\<close>

theorem flags_follow_own_outcome:
  "fst (async_update DOMAIN fmt net self) = None
     \<longrightarrow> flag m (fst (snd (async_update DOMAIN fmt net self))) = (net m = Returned)"
  by (cases m; cases "net update_observation"; cases "net update_forecast";
      cases "net update_forecast_hourly")
     (auto simp add: cycle_defs)

theorem flags_follow_own_outcome_witness:
  "fst (async_update ''nws'' id observation_down fresh) = None
   \<and> \<not> flag update_observation (fst (snd (async_update ''nws'' id observation_down fresh)))
   \<and> flag update_forecast (fst (snd (async_update ''nws'' id observation_down fresh)))"
proof -
  have r: "fst (async_update ''nws'' id observation_down fresh) = None"
    by (simp add: cycle_defs)
  show ?thesis
    using r flags_follow_own_outcome [of "''nws''" id observation_down fresh update_observation]
      flags_follow_own_outcome [of "''nws''" id observation_down fresh update_forecast]
    by simp
qed

text \<open>
  C4, as the code has it: when the observation call raises an exception the clause
  catches, the forecast call is awaited next; the hourly forecast call is awaited after
  it when the forecast call returns or raises an exception the clause catches.
\<close>

theorem failed_observation_isolated:
  "net update_observation = Raised e \<and> caught e
     \<longrightarrow> take 2 (attempted (snd (snd (async_update DOMAIN fmt net self))))
           = [update_observation, update_forecast]
       \<and> (\<not> fatal (net update_forecast)
            \<longrightarrow> attempted (snd (snd (async_update DOMAIN fmt net self)))
                 = [update_observation, update_forecast, update_forecast_hourly])"
  by (cases "net update_forecast"; cases "net update_forecast_hourly")
     (auto simp add: cycle_defs attempted_simps)

theorem failed_observation_isolated_witness:
  "attempted (snd (snd (async_update ''nws'' id observation_down fresh)))
     = [update_observation, update_forecast, update_forecast_hourly]"
  using failed_observation_isolated
    [of observation_down "ClientError ''unreachable''" "''nws''" id fresh]
  by simp

text \<open>
  C4 as stated fails: the observation call times out, the forecast call raises an
  exception the clause does not catch, and the hourly forecast call is never awaited.
\<close>

theorem hourly_not_attempted_counterexample:
  "forecast_crashes update_observation = Raised TimeoutError
   \<and> caught TimeoutError
   \<and> update_forecast_hourly
       \<notin> set (attempted (snd (snd (async_update ''nws'' id forecast_crashes fresh))))"
  by (simp add: cycle_defs attempted_simps)

text \<open>
  C8, as the code has it: when the call of a method raises an exception the clause does
  not catch, \<^verbatim>\<open>async_update\<close> raises it, the flag of that method and the flags of the
  methods after it keep their values, the flags of the methods before it have been
  assigned the outcome of their calls, and no dispatcher signal is sent.
\<close>

theorem abort_keeps_later_flags:
  "net m = Raised e \<and> \<not> caught e \<and> (\<forall>m'\<in>set (earlier m). \<not> fatal (net m'))
     \<longrightarrow> fst (async_update DOMAIN fmt net self) = Some e
       \<and> (\<forall>m'\<in>set (m # later m).
             flag m' (fst (snd (async_update DOMAIN fmt net self))) = flag m' self)
       \<and> (\<forall>m'\<in>set (earlier m).
             flag m' (fst (snd (async_update DOMAIN fmt net self))) = (net m' = Returned))
       \<and> filter is_send (snd (snd (async_update DOMAIN fmt net self))) = []"
  by (cases m; cases "net update_observation"; cases "net update_forecast";
      cases "net update_forecast_hourly")
     (auto simp add: cycle_defs log_kind_simps)

theorem abort_keeps_later_flags_witness:
  "flag update_forecast (fst (snd (async_update ''nws'' id forecast_crashes fresh)))
     = flag update_forecast fresh
   \<and> flag update_forecast_hourly (fst (snd (async_update ''nws'' id forecast_crashes fresh)))
     = flag update_forecast_hourly fresh
   \<and> filter is_send (snd (snd (async_update ''nws'' id forecast_crashes fresh))) = []"
  using abort_keeps_later_flags
    [of forecast_crashes update_forecast "OtherError ''boom''" "''nws''" id fresh]
  by simp

text \<open>
  C8 as stated fails: the observation call times out and the forecast call raises an
  exception the clause does not catch; the observation flag, true before the call, is
  false after it.
\<close>

theorem earlier_flag_modified_counterexample:
  "fst (async_update ''nws'' id forecast_crashes fresh) = Some (OtherError ''boom'')
   \<and> update_observation_success fresh
   \<and> \<not> update_observation_success (fst (snd (async_update ''nws'' id forecast_crashes fresh)))"
  by (simp add: cycle_defs fresh_simps)

text \<open>The log calls that name a method, in a cycle that reaches it.\<close>

lemma logs_of_cycle:
  "\<forall>m'\<in>set (earlier m). \<not> fatal (net m') \<Longrightarrow>
   filter (logged_for m) (snd (snd (async_update DOMAIN fmt net self)))
     = debug_log m (station self) #
       (case net m of
          Returned \<Rightarrow> if flag m self then [] else [recovery_log m (station self)]
        | Raised e \<Rightarrow> if caught e \<and> flag m self then [error_log m (station self) e] else [])"
  by (cases m; cases "net update_observation"; cases "net update_forecast";
      cases "net update_forecast_hourly")
     (auto simp add: cycle_defs logged_for_simps station_def)

section \<open>Successive update cycles\<close>

text \<open>
  What the trace of a cycle shows of one method is the trace of that method alone, for
  the outcome of its call when the cycle reaches it.
\<close>

lemma station_async_update:
  "station (fst (snd (async_update DOMAIN fmt net self))) = station self"
  by (cases "net update_observation"; cases "net update_forecast";
      cases "net update_forecast_hourly")
     (simp_all add: cycle_defs station_def)

lemma concerns_async_update:
  "filter (concerns m) (snd (snd (async_update DOMAIN fmt net self)))
     = item_trace m (station self) (flag m self)
         (if \<forall>m'\<in>set (earlier m). \<not> fatal (net m') then [net m] else [])
   \<and> flag m (fst (snd (async_update DOMAIN fmt net self)))
     = item_flag (flag m self)
         (if \<forall>m'\<in>set (earlier m). \<not> fatal (net m') then [net m] else [])"
  by (cases m; cases "net update_observation"; cases "net update_forecast";
      cases "net update_forecast_hourly")
     (simp_all add: cycle_defs station_def concerns_simps)

lemma item_trace_append:
  "item_trace m st p (os @ os') = item_trace m st p os @ item_trace m st (item_flag p os) os'"
  by (induction m st p os rule: item_trace.induct) auto

lemma item_flag_append: "item_flag p (os @ os') = item_flag (item_flag p os) os'"
  by (induction p os rule: item_flag.induct) auto

lemma concerns_async_updates:
  "\<exists>os. filter (concerns m) (snd (async_updates DOMAIN fmt nets self))
            = item_trace m (station self) (flag m self) os
        \<and> flag m (fst (async_updates DOMAIN fmt nets self)) = item_flag (flag m self) os"
proof (induction nets arbitrary: self)
  case Nil
  have "filter (concerns m) (snd (async_updates DOMAIN fmt [] self))
          = item_trace m (station self) (flag m self) []
        \<and> flag m (fst (async_updates DOMAIN fmt [] self)) = item_flag (flag m self) []"
    by simp
  then show ?case by blast
next
  case (Cons net nets)
  define self' where "self' = fst (snd (async_update DOMAIN fmt net self))"
  define t where "t = snd (snd (async_update DOMAIN fmt net self))"
  define os1 where "os1 = (if \<forall>m'\<in>set (earlier m). \<not> fatal (net m') then [net m] else [])"
  have one: "filter (concerns m) t = item_trace m (station self) (flag m self) os1"
    "flag m self' = item_flag (flag m self) os1"
    using concerns_async_update [of m DOMAIN fmt net self]
    by (simp_all add: t_def self'_def os1_def)
  have st: "station self' = station self"
    by (simp add: self'_def station_async_update)
  from Cons.IH [of self'] obtain os2 where
    two: "filter (concerns m) (snd (async_updates DOMAIN fmt nets self'))
            = item_trace m (station self') (flag m self') os2"
      "flag m (fst (async_updates DOMAIN fmt nets self')) = item_flag (flag m self') os2"
    by blast
  have run: "snd (async_updates DOMAIN fmt (net # nets) self)
               = t @ snd (async_updates DOMAIN fmt nets self')"
    "fst (async_updates DOMAIN fmt (net # nets) self) = fst (async_updates DOMAIN fmt nets self')"
    by (simp_all add: t_def self'_def split: prod.splits)
  have "filter (concerns m) (snd (async_updates DOMAIN fmt (net # nets) self))
          = item_trace m (station self) (flag m self) (os1 @ os2)
        \<and> flag m (fst (async_updates DOMAIN fmt (net # nets) self))
          = item_flag (flag m self) (os1 @ os2)"
    using one two st run by (simp add: item_trace_append item_flag_append)
  then show ?case by blast
qed

lemma awaits_item_trace: "filter (awaits m) (item_trace m st p os) = map (Await m) os"
  by (induction m st p os rule: item_trace.induct)
     (auto simp add: recovery_log_def error_log_def)

lemma awaits_concerns: "filter (awaits m) (filter (concerns m) t) = filter (awaits m) t"
  by (induction t) (auto simp add: concerns_def)

lemma awaits_not_warning: "awaits m ev \<Longrightarrow> \<not> is_warning ev"
  by (cases ev) auto

lemma warnings_concerns:
  "filter is_warning (filter (concerns m) t) = filter (\<lambda>ev. is_warning ev \<and> logged_for m ev) t"
  by (induction t) (auto simp add: concerns_def awaits_not_warning)

lemma item_trace_failing:
  "\<forall>e\<in>set es. caught e \<Longrightarrow>
   item_trace m st False (map Raised es @ [Returned])
     = map (\<lambda>e. Await m (Raised e)) es @ [Await m Returned, recovery_log m st]"
  by (induction es) auto

text \<open>
  C2: from a coordinator whose flag for a method is true (as the constructor leaves it,
  and as every call that returned leaves it), take successive cycles in which the calls
  of that method raise one or more exceptions the clause catches, one after the other,
  and then return. Of that method the trace shows: the first failed call and the error
  warning with its exception, the other failed calls with no warning, the call that
  returned and the recovery warning. So the warnings about the method are one error
  warning and one recovery warning, however many calls failed.
\<close>

theorem one_warning_one_recovery:
  assumes "flag m self" and "es \<noteq> []" and "\<forall>e\<in>set es. caught e"
    and "filter (awaits m) (snd (async_updates DOMAIN fmt nets self))
           = map (\<lambda>e. Await m (Raised e)) es @ [Await m Returned]"
  shows "filter (concerns m) (snd (async_updates DOMAIN fmt nets self))
           = [Await m (Raised (hd es)), error_log m (station self) (hd es)]
             @ map (\<lambda>e. Await m (Raised e)) (tl es)
             @ [Await m Returned, recovery_log m (station self)]
       \<and> filter (\<lambda>ev. is_warning ev \<and> logged_for m ev)
            (snd (async_updates DOMAIN fmt nets self))
           = [error_log m (station self) (hd es), recovery_log m (station self)]"
proof -
  let ?t = "snd (async_updates DOMAIN fmt nets self)"
  from concerns_async_updates [of m DOMAIN fmt nets self] assms(1) obtain os where
    os: "filter (concerns m) ?t = item_trace m (station self) True os"
    by auto
  have "filter (awaits m) ?t = map (Await m) os"
    using os awaits_item_trace [of m "station self" True os] awaits_concerns [of m ?t]
    by simp
  with assms(4) have "map (Await m) os = map (Await m) (map Raised es @ [Returned])"
    by (simp add: comp_def)
  moreover have "inj (Await m)"
    by (simp add: inj_on_def)
  ultimately have os_eq: "os = map Raised es @ [Returned]"
    using inj_map_eq_map by blast
  from assms(2) obtain e es' where es: "es = e # es'"
    by (cases es) auto
  with assms(3) have c: "caught e" "\<forall>e\<in>set es'. caught e"
    by simp_all
  have first: "filter (concerns m) ?t
           = [Await m (Raised (hd es)), error_log m (station self) (hd es)]
             @ map (\<lambda>e. Await m (Raised e)) (tl es)
             @ [Await m Returned, recovery_log m (station self)]"
    using os os_eq es c item_trace_failing [OF c(2), of m "station self"]
    by simp
  have "filter (\<lambda>ev. is_warning ev \<and> logged_for m ev) ?t
          = filter is_warning (filter (concerns m) ?t)"
    by (rule warnings_concerns [symmetric])
  also have "\<dots> = [error_log m (station self) (hd es), recovery_log m (station self)]"
    by (simp add: first error_log_def recovery_log_def filter_map comp_def)
  finally show ?thesis using first by simp
qed

theorem one_warning_one_recovery_witness:
  "filter (\<lambda>ev. is_warning ev \<and> logged_for update_observation ev)
     (snd (async_updates ''nws'' id [observation_down, all_timeout, all_returned] fresh))
   = [error_log update_observation None (ClientError ''unreachable''),
      recovery_log update_observation None]"
proof -
  let ?es = "[ClientError ''unreachable'', TimeoutError]"
  have h1: "flag update_observation fresh"
    by (simp add: fresh_simps)
  have h2: "?es \<noteq> []"
    by simp
  have h3: "\<forall>e\<in>set ?es. caught e"
    by simp
  have h4: "filter (awaits update_observation)
              (snd (async_updates ''nws'' id [observation_down, all_timeout, all_returned] fresh))
            = map (\<lambda>e. Await update_observation (Raised e)) ?es
              @ [Await update_observation Returned]"
    by (simp add: cycle_defs all_timeout_def all_returned_def fresh_simps station_def
          debug_log_def recovery_log_def error_log_def)
  show ?thesis
    using one_warning_one_recovery [OF h1 h2 h3 h4]
    by (simp add: fresh_simps)
qed

lemma awaited_outcomes:
  assumes "filter (concerns m) t = item_trace m st p os"
    and "filter (awaits m) t = map (Await m) os'"
  shows "os = os'"
proof -
  have "filter (awaits m) t = map (Await m) os"
    using assms(1) awaits_item_trace [of m st p os] awaits_concerns [of m t]
    by simp
  with assms(2) have "map (Await m) os = map (Await m) os'"
    by simp
  moreover have "inj (Await m)"
    by (simp add: inj_on_def)
  ultimately show ?thesis
    using inj_map_eq_map by blast
qed

text \<open>While no call of a method raises an exception the clause catches, its flag stays true and nothing is logged about it but the awaited calls.\<close>

lemma item_trace_healthy:
  "\<forall>oc\<in>set os. oc = Returned \<or> fatal oc \<Longrightarrow>
   item_trace m st True os = map (Await m) os \<and> item_flag True os"
proof (induction os)
  case Nil
  show ?case by simp
next
  case (Cons oc os)
  then show ?case by (cases oc) auto
qed

lemma warnings_awaits: "filter is_warning (map (Await m) os) = []"
  by (induction os) simp_all

text \<open>
  C9: the three flags of a new coordinator are true. So, from a coordinator whose flag
  for a method is true, as the constructor leaves it: in a cycle that reaches the
  method, a call that raises an exception the clause catches is logged by one error
  warning, and a call that returns is logged by no warning (the one log call that names
  it is the debug call made before every await). Over successive cycles the same holds
  of the first call the clause catches, whatever number of calls returned or raised an
  exception the clause does not catch before it, and of every call that returns before
  such a failure.
\<close>

theorem fresh_flags_and_first_logs:
  "flag m (NwsData_init h lat lon k ws)
   \<and> (flag m self \<and> (\<forall>m'\<in>set (earlier m). \<not> fatal (net m')) \<longrightarrow>
        (\<forall>e. net m = Raised e \<and> caught e \<longrightarrow>
           filter (\<lambda>ev. is_warning ev \<and> logged_for m ev)
             (snd (snd (async_update DOMAIN fmt net self))) = [error_log m (station self) e])
        \<and> (net m = Returned \<longrightarrow>
           filter (\<lambda>ev. is_warning ev \<and> logged_for m ev)
             (snd (snd (async_update DOMAIN fmt net self))) = []
           \<and> filter (logged_for m) (snd (snd (async_update DOMAIN fmt net self)))
             = [debug_log m (station self)]))
   \<and> (flag m self \<and> (\<forall>oc\<in>set os. oc = Returned \<or> fatal oc) \<longrightarrow>
        (filter (awaits m) (snd (async_updates DOMAIN fmt nets self)) = map (Await m) os
           \<longrightarrow> filter (\<lambda>ev. is_warning ev \<and> logged_for m ev)
                 (snd (async_updates DOMAIN fmt nets self)) = [])
        \<and> (caught e
           \<and> filter (awaits m) (snd (async_updates DOMAIN fmt nets self))
             = map (Await m) (os @ [Raised e])
           \<longrightarrow> filter (\<lambda>ev. is_warning ev \<and> logged_for m ev)
                 (snd (async_updates DOMAIN fmt nets self)) = [error_log m (station self) e]))"
proof (intro conjI impI allI)
  show "flag m (NwsData_init h lat lon k ws)"
    by (rule flag_fresh)
next
  fix e
  assume a: "flag m self \<and> (\<forall>m'\<in>set (earlier m). \<not> fatal (net m'))"
    and b: "net m = Raised e \<and> caught e"
  have "filter (\<lambda>ev. is_warning ev \<and> logged_for m ev) (snd (snd (async_update DOMAIN fmt net self)))
          = filter is_warning (filter (logged_for m) (snd (snd (async_update DOMAIN fmt net self))))"
    by (simp add: conj_commute)
  also have "\<dots> = [error_log m (station self) e]"
    using a b logs_of_cycle [of m net DOMAIN fmt self] by (simp add: log_kind_simps)
  finally show "filter (\<lambda>ev. is_warning ev \<and> logged_for m ev)
                  (snd (snd (async_update DOMAIN fmt net self))) = [error_log m (station self) e]" .
next
  assume a: "flag m self \<and> (\<forall>m'\<in>set (earlier m). \<not> fatal (net m'))"
    and b: "net m = Returned"
  have "filter (\<lambda>ev. is_warning ev \<and> logged_for m ev) (snd (snd (async_update DOMAIN fmt net self)))
          = filter is_warning (filter (logged_for m) (snd (snd (async_update DOMAIN fmt net self))))"
    by (simp add: conj_commute)
  also have "\<dots> = []"
    using a b logs_of_cycle [of m net DOMAIN fmt self] by (simp add: log_kind_simps)
  finally show "filter (\<lambda>ev. is_warning ev \<and> logged_for m ev)
                  (snd (snd (async_update DOMAIN fmt net self))) = []" .
next
  assume a: "flag m self \<and> (\<forall>m'\<in>set (earlier m). \<not> fatal (net m'))"
    and b: "net m = Returned"
  then show "filter (logged_for m) (snd (snd (async_update DOMAIN fmt net self)))
               = [debug_log m (station self)]"
    using logs_of_cycle [of m net DOMAIN fmt self] by simp
next
  let ?t = "snd (async_updates DOMAIN fmt nets self)"
  assume a: "flag m self \<and> (\<forall>oc\<in>set os. oc = Returned \<or> fatal oc)"
    and b: "filter (awaits m) ?t = map (Await m) os"
  from concerns_async_updates [of m DOMAIN fmt nets self] a obtain os' where
    os': "filter (concerns m) ?t = item_trace m (station self) True os'"
    by auto
  from os' b have "os' = os"
    by (rule awaited_outcomes)
  with os' a have "filter (concerns m) ?t = map (Await m) os"
    using item_trace_healthy [of os m "station self"] by simp
  then show "filter (\<lambda>ev. is_warning ev \<and> logged_for m ev) ?t = []"
    using warnings_concerns [of m ?t] by (simp add: warnings_awaits)
next
  let ?t = "snd (async_updates DOMAIN fmt nets self)"
  assume a: "flag m self \<and> (\<forall>oc\<in>set os. oc = Returned \<or> fatal oc)"
    and b: "caught e \<and> filter (awaits m) ?t = map (Await m) (os @ [Raised e])"
  from concerns_async_updates [of m DOMAIN fmt nets self] a obtain os' where
    os': "filter (concerns m) ?t = item_trace m (station self) True os'"
    by auto
  from os' b have "os' = os @ [Raised e]"
    using awaited_outcomes by blast
  with os' a b have "filter (concerns m) ?t
                       = map (Await m) os @ [Await m (Raised e), error_log m (station self) e]"
    using item_trace_healthy [of os m "station self"] by (simp add: item_trace_append)
  then show "filter (\<lambda>ev. is_warning ev \<and> logged_for m ev) ?t = [error_log m (station self) e]"
    using warnings_concerns [of m ?t] by (simp add: warnings_awaits log_kind_simps)
qed

theorem fresh_flags_and_first_logs_witness:
  "filter (\<lambda>ev. is_warning ev \<and> logged_for update_observation ev)
     (snd (snd (async_update ''nws'' id observation_down fresh)))
   = [error_log update_observation None (ClientError ''unreachable'')]
   \<and> filter (logged_for update_forecast)
       (snd (snd (async_update ''nws'' id observation_down fresh)))
     = [debug_log update_forecast None]
   \<and> filter (\<lambda>ev. is_warning ev \<and> logged_for update_observation ev)
       (snd (async_updates ''nws'' id [all_returned, observation_down] fresh))
     = [error_log update_observation None (ClientError ''unreachable'')]"
proof -
  let ?t = "snd (async_updates ''nws'' id [all_returned, observation_down] fresh)"
  have h1: "flag update_observation fresh
            \<and> (\<forall>m'\<in>set (earlier update_observation). \<not> fatal (observation_down m'))"
    by (simp add: fresh_simps)
  have h1': "observation_down update_observation = Raised (ClientError ''unreachable'')
             \<and> caught (ClientError ''unreachable'')"
    by simp
  have h2: "flag update_forecast fresh
            \<and> (\<forall>m'\<in>set (earlier update_forecast). \<not> fatal (observation_down m'))"
    by (simp add: fresh_simps)
  have h2': "observation_down update_forecast = Returned"
    by simp
  have h3: "flag update_observation fresh \<and> (\<forall>oc\<in>set [Returned]. oc = Returned \<or> fatal oc)"
    by (simp add: fresh_simps)
  have h3': "caught (ClientError ''unreachable'')
            \<and> filter (awaits update_observation) ?t
              = map (Await update_observation)
                  ([Returned] @ [Raised (ClientError ''unreachable'')])"
    by (simp add: cycle_defs all_returned_def station_def fresh_simps
          debug_log_def recovery_log_def error_log_def)
  note first = fresh_flags_and_first_logs
  show ?thesis
    using first [of update_observation _ _ _ _ _ fresh observation_down "''nws''" id,
               THEN conjunct2, THEN conjunct1, rule_format, OF h1,
               THEN conjunct1, rule_format, OF h1']
      first [of update_forecast _ _ _ _ _ fresh observation_down "''nws''" id,
           THEN conjunct2, THEN conjunct1, rule_format, OF h2,
           THEN conjunct2, rule_format, OF h2', THEN conjunct2]
      first [of update_observation _ _ _ _ _ fresh _ "''nws''" id "[Returned]"
              "[all_returned, observation_down]" "ClientError ''unreachable''",
           THEN conjunct2, THEN conjunct2, rule_format, OF h3,
           THEN conjunct2, rule_format, OF h3']
    by (simp add: fresh_simps)
qed

lemma recovery_is_warning: "is_recovery ev \<Longrightarrow> is_warning ev"
  by (cases ev) auto

lemma item_trace_recovery:
  "item_trace m st prev os = p @ ev # q \<Longrightarrow> is_recovery ev
     \<Longrightarrow> \<not> prev \<or> (\<exists>e. caught e \<and> Await m (Raised e) \<in> set p)"
proof (induction m st prev os arbitrary: p rule: item_trace.induct)
  case (1 m st prev)
  then show ?case by simp
next
  case (2 m st prev os)
  show ?case
  proof (cases prev)
    case False
    then show ?thesis by simp
  next
    case True
    with "2.prems" have eq: "Await m Returned # item_trace m st True os = p @ ev # q"
      by simp
    with "2.prems"(2) obtain p' where p: "p = Await m Returned # p'"
      and rest: "item_trace m st True os = p' @ ev # q"
      by (cases p) auto
    from "2.IH" [OF rest "2.prems"(2)] p show ?thesis
      by auto
  qed
next
  case (3 m st prev e os)
  show ?case
  proof (cases prev)
    case False
    then show ?thesis by simp
  next
    case True
    note prev = True
    show ?thesis
    proof (cases "caught e")
      case True
      with "3.prems" prev obtain p' where "p = Await m (Raised e) # p'"
        by (cases p) auto
      with True show ?thesis by auto
    next
      case False
      with "3.prems" prev obtain p' where p: "p = Await m (Raised e) # p'"
        and rest: "item_trace m st prev os = p' @ ev # q"
        by (cases p) auto
      from "3.IH"(2) [OF False rest "3.prems"(2)] p prev show ?thesis
        by auto
    qed
  qed
qed

text \<open>What a cycle does to the flag of a method, next to the recovery warnings it logs.\<close>

lemma item_trace_single:
  "ev \<in> set (item_trace m st p [oc]) \<Longrightarrow> is_recovery ev
     \<Longrightarrow> \<not> p \<and> oc = Returned \<and> item_flag p [oc] \<and> ev = recovery_log m st"
  by (cases oc) (auto simp add: log_kind_simps split: if_splits)

lemma recovery_in_cycle:
  assumes "ev \<in> set (snd (snd (async_update DOMAIN fmt net self)))"
    and "is_recovery ev" and "logged_for m ev"
  shows "\<not> flag m self \<and> net m = Returned
         \<and> flag m (fst (snd (async_update DOMAIN fmt net self)))
         \<and> ev = recovery_log m (station self)"
proof -
  let ?os = "if \<forall>m'\<in>set (earlier m). \<not> fatal (net m') then [net m] else []"
  from assms have "ev \<in> set (filter (concerns m) (snd (snd (async_update DOMAIN fmt net self))))"
    by (simp add: concerns_def recovery_is_warning)
  then have mem: "ev \<in> set (item_trace m (station self) (flag m self) ?os)"
    using concerns_async_update [of m DOMAIN fmt net self] by simp
  then have os: "?os = [net m]"
    by (auto split: if_splits)
  with mem have "ev \<in> set (item_trace m (station self) (flag m self) [net m])"
    by simp
  from item_trace_single [OF this assms(2)] os
    concerns_async_update [of m DOMAIN fmt net self]
  show ?thesis by simp
qed

lemma flag_falls_in_cycle:
  assumes "flag m self" and "\<not> flag m (fst (snd (async_update DOMAIN fmt net self)))"
  shows "\<exists>e. net m = Raised e \<and> caught e"
proof -
  let ?os = "if \<forall>m'\<in>set (earlier m). \<not> fatal (net m') then [net m] else []"
  from assms concerns_async_update [of m DOMAIN fmt net self]
  have "\<not> item_flag True ?os"
    by simp
  then show ?thesis
    by (cases "net m") (auto split: if_splits)
qed

text \<open>
  C6: the constructor leaves the flag of every method true, and the first cycle of a
  new coordinator logs no recovery warning, whatever its calls do. In any cycle of any
  coordinator, a recovery warning about a method is logged only when the flag of that
  method is false before the cycle, its call returns, and the flag is true after the
  cycle; and a flag that is true before a cycle and false after it was set so by a call
  that raised an exception the clause catches. Over successive cycles from a coordinator
  whose flag for the method is true, every recovery warning about the method comes after
  such a call of that method. Inside \<^verbatim>\<open>_async_update_item\<close> the recovery warning is
  logged exactly when the flag it is given is false and the call returns, and its result
  is then true.
\<close>

theorem recovery_only_after_failure:
  "flag m (NwsData_init h lat lon k ws)
   \<and> filter is_recovery
       (snd (snd (async_update DOMAIN fmt net (NwsData_init h lat lon k ws)))) = []
   \<and> (\<forall>ev. ev \<in> set (snd (snd (async_update DOMAIN fmt net self)))
            \<and> is_recovery ev \<and> logged_for m ev
         \<longrightarrow> \<not> flag m self \<and> net m = Returned
             \<and> flag m (fst (snd (async_update DOMAIN fmt net self))))
   \<and> (flag m self \<and> \<not> flag m (fst (snd (async_update DOMAIN fmt net self)))
         \<longrightarrow> (\<exists>e. net m = Raised e \<and> caught e))
   \<and> (flag m self \<longrightarrow>
        (\<forall>pre ev post.
           snd (async_updates DOMAIN fmt nets self) = pre @ ev # post
           \<and> is_recovery ev \<and> logged_for m ev
           \<longrightarrow> (\<exists>e. caught e \<and> Await m (Raised e) \<in> set pre)))
   \<and> ((\<exists>ev\<in>set (snd (async_update_item c ty st prev)). is_recovery ev)
        = (\<not> prev \<and> snd c = Returned))
   \<and> ((\<exists>ev\<in>set (snd (async_update_item c ty st prev)). is_recovery ev)
        \<longrightarrow> fst (async_update_item c ty st prev) = Inr True)"
proof (intro conjI allI impI)
  show "flag m (NwsData_init h lat lon k ws)"
    by (rule flag_fresh)
next
  show "filter is_recovery
          (snd (snd (async_update DOMAIN fmt net (NwsData_init h lat lon k ws)))) = []"
    by (cases "net update_observation"; cases "net update_forecast";
        cases "net update_forecast_hourly")
       (simp_all add: cycle_defs log_kind_simps NwsData_init_def)
next
  fix ev
  assume a: "ev \<in> set (snd (snd (async_update DOMAIN fmt net self)))
             \<and> is_recovery ev \<and> logged_for m ev"
  from a recovery_in_cycle [of ev DOMAIN fmt net self m]
  show "\<not> flag m self" and "net m = Returned"
    and "flag m (fst (snd (async_update DOMAIN fmt net self)))"
    by simp_all
next
  assume "flag m self \<and> \<not> flag m (fst (snd (async_update DOMAIN fmt net self)))"
  then show "\<exists>e. net m = Raised e \<and> caught e"
    using flag_falls_in_cycle [of m self DOMAIN fmt net] by simp
next
  fix pre ev post
  assume f: "flag m self"
    and a: "snd (async_updates DOMAIN fmt nets self) = pre @ ev # post
             \<and> is_recovery ev \<and> logged_for m ev"
  then have c: "concerns m ev"
    by (simp add: concerns_def recovery_is_warning)
  from concerns_async_updates [of m DOMAIN fmt nets self] f obtain os where
    "filter (concerns m) (snd (async_updates DOMAIN fmt nets self))
       = item_trace m (station self) True os"
    by auto
  with a c have "item_trace m (station self) True os
                   = filter (concerns m) pre @ ev # filter (concerns m) post"
    by simp
  from item_trace_recovery [OF this] a
  show "\<exists>e. caught e \<and> Await m (Raised e) \<in> set pre"
    by auto
next
  show "(\<exists>ev\<in>set (snd (async_update_item c ty st prev)). is_recovery ev)
          = (\<not> prev \<and> snd c = Returned)"
    by (cases "snd c") (auto simp add: async_update_item_def Let_def)
next
  assume "\<exists>ev\<in>set (snd (async_update_item c ty st prev)). is_recovery ev"
  then show "fst (async_update_item c ty st prev) = Inr True"
    by (cases "snd c") (auto simp add: async_update_item_def Let_def split: if_splits)
qed

theorem recovery_only_after_failure_witness:
  "\<not> flag update_observation (fst (snd (async_update ''nws'' id observation_down fresh)))
   \<and> flag update_observation
       (fst (snd (async_update ''nws'' id all_returned
                    (fst (snd (async_update ''nws'' id observation_down fresh))))))
   \<and> (\<exists>e. caught e \<and> Await update_observation (Raised e)
        \<in> set [debug_log update_observation None,
               Await update_observation (Raised (ClientError ''unreachable'')),
               error_log update_observation None (ClientError ''unreachable''),
               debug_log update_forecast None, Await update_forecast Returned,
               debug_log update_forecast_hourly None, Await update_forecast_hourly Returned,
               DispatcherSend ''nws_39.0_-77.0'',
               debug_log update_observation None, Await update_observation Returned])"
proof -
  let ?down = "fst (snd (async_update ''nws'' id observation_down fresh))"
  let ?ev = "recovery_log update_observation None"
  have st: "station ?down = None"
    by (simp add: cycle_defs station_def fresh_simps)
  have cyc: "?ev \<in> set (snd (snd (async_update ''nws'' id all_returned ?down)))
             \<and> is_recovery ?ev \<and> logged_for update_observation ?ev"
    using st
    by (simp add: cycle_defs all_returned_def station_def fresh_simps
          log_kind_simps logged_for_simps)
  have tr: "snd (async_updates ''nws'' id [observation_down, all_returned] fresh)
     = [debug_log update_observation None,
        Await update_observation (Raised (ClientError ''unreachable'')),
        error_log update_observation None (ClientError ''unreachable''),
        debug_log update_forecast None, Await update_forecast Returned,
        debug_log update_forecast_hourly None, Await update_forecast_hourly Returned,
        DispatcherSend ''nws_39.0_-77.0'',
        debug_log update_observation None, Await update_observation Returned]
       @ ?ev
       # [debug_log update_forecast None, Await update_forecast Returned,
          debug_log update_forecast_hourly None, Await update_forecast_hourly Returned,
          DispatcherSend ''nws_39.0_-77.0'']
     \<and> is_recovery ?ev \<and> logged_for update_observation ?ev"
    by (simp add: cycle_defs all_returned_def station_def fresh_simps
          log_kind_simps logged_for_simps)
  have f: "flag update_observation fresh"
    by (simp add: fresh_simps)
  note main = recovery_only_after_failure
  show ?thesis
    using main [of update_observation _ _ _ _ _ "''nws''" id all_returned ?down,
                THEN conjunct2, THEN conjunct2, THEN conjunct1, rule_format, OF cyc]
      main [of update_observation _ _ _ _ _ "''nws''" id _ fresh
               "[observation_down, all_returned]",
            THEN conjunct2, THEN conjunct2, THEN conjunct2, THEN conjunct2, THEN conjunct1,
            rule_format, OF f tr]
    by simp
qed

section \<open>Validation of the configuration\<close>

lemmas conf_defs = CONF_API_KEY_def CONF_LATITUDE_def CONF_LONGITUDE_def CONF_STATION_def

text \<open>
  C7: a dictionary that has one of the keys \<^verbatim>\<open>latitude\<close> and \<^verbatim>\<open>longitude\<close> and not the
  other fails the validation against \<^verbatim>\<open>_INDIVIDUAL_SCHEMA\<close>, whatever its values and
  its other keys, with the error of the group of inclusion; so does the dictionary of
  the keys \<^verbatim>\<open>api_key\<close> and \<^verbatim>\<open>latitude\<close> alone.
\<close>

theorem latitude_longitude_together:
  "((CONF_LATITUDE \<in> fst ` set data) \<noteq> (CONF_LONGITUDE \<in> fst ` set data)
      \<longrightarrow> validate_dict (INDIVIDUAL_SCHEMA cv) data
            = Inl [InclusiveInvalid ''Latitude and longitude must exist together'' ''coordinates''])
   \<and> validate_dict (INDIVIDUAL_SCHEMA cv) [(CONF_API_KEY, k), (CONF_LATITUDE, v)]
       = Inl [InclusiveInvalid ''Latitude and longitude must exist together'' ''coordinates'']"
  by (auto simp add: validate_dict_def INDIVIDUAL_SCHEMA_def conf_defs Let_def)

theorem latitude_longitude_together_witness:
  "validate_dict (INDIVIDUAL_SCHEMA accept_all) [(CONF_API_KEY, ''k''), (CONF_LONGITUDE, ''-77.0'')]
     = Inl [InclusiveInvalid ''Latitude and longitude must exist together'' ''coordinates'']"
proof -
  have h: "(CONF_LATITUDE \<in> fst ` set [(CONF_API_KEY, ''k''), (CONF_LONGITUDE, ''-77.0'')])
           \<noteq> (CONF_LONGITUDE \<in> fst ` set [(CONF_API_KEY, ''k''), (CONF_LONGITUDE, ''-77.0'')])"
    by (simp add: conf_defs)
  show ?thesis
    using h latitude_longitude_together
      [of "[(CONF_API_KEY, ''k''), (CONF_LONGITUDE, ''-77.0'')]" accept_all]
    by blast
qed

text \<open>The schema is not one that rejects everything: a complete dictionary passes.\<close>

lemma schema_accepts_complete:
  "validate_dict (INDIVIDUAL_SCHEMA accept_all)
     [(CONF_API_KEY, ''k''), (CONF_LATITUDE, ''40.0''), (CONF_LONGITUDE, ''-77.0'')]
   = Inr [(CONF_API_KEY, ''k''), (CONF_LATITUDE, ''40.0''), (CONF_LONGITUDE, ''-77.0'')]"
  by (simp add: validate_dict_def INDIVIDUAL_SCHEMA_def conf_defs Let_def accept_all_def)

end
